theory Spec2Isabelle
  imports Main
begin

section \<open>JavaScript values\<close>

text \<open>
  The values that \<open>set\<close> of \<open>ember-metal/lib/property_set.ts\<close> receives and inspects at
  run time. The checks of the source are dynamic (\<open>typeof\<close>, truthiness, \<open>===\<close>), so the
  arguments are untyped values here, not the types of the TypeScript signature.
  A number other than \<open>NaN\<close> is given by its notation, the string that the language's
  \<open>Number::toString\<close> yields for it (\<open>1\<close>, \<open>-1\<close>, \<open>1.5\<close>, \<open>1e+21\<close>, \<open>Infinity\<close>).
  Every number has one notation, and two numbers have the same notation only when they
  are the two zeros, which \<open>===\<close> does not tell apart either; a string that is the
  notation of no number stands for no value that the code can receive. A string is the
  list of its code units, each of them below 256 here. An object and a function are both
  references into the store; which of the two a reference is never changes.
\<close>

type_synonym ref = nat

datatype number = NaN | Number string

datatype val =
    Undefined
  | Null
  | Bool bool
  | Num number
  | Str string
  | Obj ref
  | Func ref

datatype jstype = TUndefined | TObject | TBoolean | TNumber | TString | TFunction

fun typeof :: "val \<Rightarrow> jstype" where
  "typeof Undefined = TUndefined"
| "typeof Null = TObject"
| "typeof (Bool _) = TBoolean"
| "typeof (Num _) = TNumber"
| "typeof (Str _) = TString"
| "typeof (Obj _) = TObject"
| "typeof (Func _) = TFunction"

text \<open>Truthiness, as \<open>if (x)\<close>, \<open>x && y\<close> and \<open>!x\<close> read a value.\<close>

fun truthy :: "val \<Rightarrow> bool" where
  "truthy Undefined = False"
| "truthy Null = False"
| "truthy (Bool b) = b"
| "truthy (Num NaN) = False"
| "truthy (Num (Number n)) = (n \<noteq> ''0'')"
| "truthy (Str s) = (s \<noteq> [])"
| "truthy (Obj _) = True"
| "truthy (Func _) = True"

text \<open>\<open>a === b\<close>: identity of values, except that \<open>NaN\<close> is identical to nothing.\<close>

fun strict_eq :: "val \<Rightarrow> val \<Rightarrow> bool" where
  "strict_eq (Num NaN) _ = False"
| "strict_eq _ (Num NaN) = False"
| "strict_eq a b = (a = b)"

definition strict_neq :: "val \<Rightarrow> val \<Rightarrow> bool" where
  "strict_neq a b = (\<not> strict_eq a b)"

text \<open>\<open>isNaN(keyName)\<close>; the source calls it behind \<open>typeof keyName === 'number'\<close> only.\<close>

fun isNaN :: "val \<Rightarrow> bool" where
  "isNaN (Num NaN) = True"
| "isNaN (Num (Number _)) = False"
| "isNaN Undefined = True"
| "isNaN Null = False"
| "isNaN (Bool _) = False"
| "isNaN _ = True"

subsection \<open>Property keys and paths\<close>

text \<open>
  The string under which \<open>obj[keyName]\<close> and \<open>keyName in obj\<close> look a key up: a string
  is its own key, a number its notation.
\<close>

fun to_key :: "val \<Rightarrow> string" where
  "to_key (Str s) = s"
| "to_key (Num NaN) = ''NaN''"
| "to_key (Num (Number n)) = n"
| "to_key Undefined = ''undefined''"
| "to_key Null = ''null''"
| "to_key (Bool b) = (if b then ''true'' else ''false'')"
| "to_key (Obj _) = ''[object Object]''"
| "to_key (Func _) = ''function''"

text \<open>\<open>s.lastIndexOf(pat, 0)\<close>: the search may only start at index 0.\<close>

definition lastIndexOf0 :: "string \<Rightarrow> string \<Rightarrow> int" where
  "lastIndexOf0 s pat = (if take (length pat) s = pat then 0 else - 1)"

text \<open>\<open>path.split('.')\<close> and \<open>parts.join('.')\<close>.\<close>

fun split_dot :: "string \<Rightarrow> string list" where
  "split_dot [] = [[]]"
| "split_dot (c # cs) =
     (if c = CHR ''.'' then [] # split_dot cs
      else (case split_dot cs of
              [] \<Rightarrow> [[c]]
            | p # ps \<Rightarrow> (c # p) # ps))"

fun join_dot :: "string list \<Rightarrow> string" where
  "join_dot [] = []"
| "join_dot [p] = p"
| "join_dot (p # q # ps) = p @ CHR ''.'' # join_dot (q # ps)"

text \<open>
  \<open>s.trim()\<close> strips white space and line terminators from both ends. Among the code
  units below 256 these are the tab, the line feed, the vertical tab, the form feed, the
  carriage return, the space and the no-break space (U+00A0).
\<close>

definition is_space :: "char \<Rightarrow> bool" where
  "is_space c =
     (c \<in> set [CHR 0x09, CHR 0x0A, CHR 0x0B, CHR 0x0C, CHR 0x0D, CHR 0x20, CHR 0xA0])"

definition trim :: "string \<Rightarrow> string" where
  "trim s = rev (dropWhile is_space (rev (dropWhile is_space s)))"

text \<open>
  Modelled from the spec: \<open>isPath\<close> of \<open>./path_cache\<close> is not among the sources. Section
  4.1: it is true iff the key contains at least one \<open>.\<close> separator; a number contains none.
\<close>

fun isPath :: "val \<Rightarrow> bool" where
  "isPath (Str s) = (CHR ''.'' \<in> set s)"
| "isPath _ = False"

section \<open>Objects, the meta store and the trace\<close>

text \<open>
  A property slot is what \<open>Object.getOwnPropertyDescriptor\<close> shows of it: a data slot
  with its value, or an accessor with its getter and its setter, and the enumerable flag.
  The getter of an accessor is a function value, or the shim that the upgrade path of
  \<open>set\<close> defines (\<open>get() { return cv.get(this, keyName) }\<close>, kept as \<open>cv\<close> and
  \<open>keyName\<close>). Slots are writable and configurable and objects extensible; the slots an
  object inherits through its prototype chain are the table \<open>inherited\<close>.
\<close>

datatype getter = GetterFn val | DescriptorShim val val

datatype slot = Data val bool | Accessor getter val bool

text \<open>
  Modelled from the spec: the class \<open>Meta\<close> of \<open>ember-meta\<close> is not among the sources.
  Section 3: a Meta is owned by one object and holds the watch count of every key and the
  descriptor table (key to Descriptor).
\<close>

record Meta =
  watching :: "string \<Rightarrow> nat"
  descriptors :: "string \<rightharpoonup> val"

record jsobj =
  own :: "string \<rightharpoonup> slot"
  inherited :: "string \<rightharpoonup> slot"
  meta_store :: "Meta option"

type_synonym heap = "ref \<Rightarrow> jsobj"

text \<open>
  What the set pipeline itself does to the outside, in order: the calls it makes to
  function values, the assignments \<open>obj[keyName] = value\<close>, the properties it defines
  and the calls to its collaborators. Code that the pipeline calls changes the heap and
  cannot write the trace.
\<close>

datatype event =
    Call val val "val list"
  | Assign val string val
  | DefineProperty val string slot
  | Deprecate string
  | WriteDescriptors val val val
  | WriteValue val val val
  | GetPath val string
  | Notify val val

text \<open>
  The errors (section 7 of the spec): the assertions on the shape of the call are
  \<open>InvalidArgument\<close>, that is the four at the head of \<open>set\<close> (lines 51 to 66) and the
  one of \<open>setPath\<close> on a path with an empty last segment (line 178); the assertion on a
  destroyed object is \<open>DestroyedObjectError\<close>; the \<open>EmberError\<close> of \<open>setPath\<close> is
  \<open>PathResolutionError\<close>. \<open>TypeError\<close> is the language's own (calling what is no
  function); \<open>Thrown\<close> is whatever code called by the pipeline threw.
\<close>

datatype error =
    InvalidArgument
  | DestroyedObjectError
  | PathResolutionError
  | TypeError
  | Thrown val

record state =
  heap :: heap
  trace :: "event list"

type_synonym 'a result = "(error + 'a) \<times> state"

text \<open>
  The build flags the source tests, and the code it calls that is not the pipeline's own:
  the bodies of function values (descriptor setters, \<open>setUnknownProperty\<close>, \<open>setup\<close>,
  accessor setters), accessor getters (taken to have no effect), and the collaborators
  \<open>_getPath\<close> of \<open>./property_get\<close>, \<open>notifyPropertyChange\<close> of \<open>./property_events\<close>
  and \<open>Meta.writeValue\<close>. Each returns the value or what it threw, and the heap it leaves.
\<close>

record env =
  DEBUG :: bool
  HAS_NATIVE_PROXY :: bool
  PROPERTY_BASED_DESCRIPTORS :: bool
  call_impl :: "val \<Rightarrow> val \<Rightarrow> val list \<Rightarrow> heap \<Rightarrow> (val + val) \<times> heap"
  getter_impl :: "getter \<Rightarrow> val \<Rightarrow> heap \<Rightarrow> val"
  getPath_impl :: "val \<Rightarrow> string \<Rightarrow> heap \<Rightarrow> (val + val) \<times> heap"
  notifyPropertyChange_impl :: "val \<Rightarrow> val \<Rightarrow> Meta option \<Rightarrow> heap \<Rightarrow> (val + unit) \<times> heap"
  writeValue_impl :: "Meta \<Rightarrow> val \<Rightarrow> val \<Rightarrow> val \<Rightarrow> heap \<Rightarrow> (val + unit) \<times> heap"

definition raise :: "error \<Rightarrow> state \<Rightarrow> 'a result" where
  "raise e s = (Inl e, s)"

text \<open>A call of outside code: the event is recorded, the heap is the one the code leaves.\<close>

definition outside :: "event \<Rightarrow> (heap \<Rightarrow> (val + 'a) \<times> heap) \<Rightarrow> state \<Rightarrow> 'a result" where
  "outside ev f s =
     (case f (heap s) of
        (Inl x, h') \<Rightarrow> (Inl (Thrown x), \<lparr>heap = h', trace = trace s @ [ev]\<rparr>)
      | (Inr v, h') \<Rightarrow> (Inr v, \<lparr>heap = h', trace = trace s @ [ev]\<rparr>))"

text \<open>\<open>f.call(this, ...args)\<close>: a \<open>TypeError\<close> when \<open>f\<close> is not a function.\<close>

definition invoke :: "env \<Rightarrow> val \<Rightarrow> val \<Rightarrow> val list \<Rightarrow> state \<Rightarrow> val result" where
  "invoke E f this args s =
     (if typeof f = TFunction then outside (Call f this args) (call_impl E f this args) s
      else raise TypeError s)"

definition getPath :: "env \<Rightarrow> val \<Rightarrow> string \<Rightarrow> state \<Rightarrow> val result" where
  "getPath E root path s = outside (GetPath root path) (getPath_impl E root path) s"

definition notifyPropertyChange :: "env \<Rightarrow> val \<Rightarrow> val \<Rightarrow> Meta option \<Rightarrow> state \<Rightarrow> unit result" where
  "notifyPropertyChange E obj keyName m s =
     outside (Notify obj keyName) (notifyPropertyChange_impl E obj keyName m) s"

definition writeValue :: "env \<Rightarrow> Meta \<Rightarrow> val \<Rightarrow> val \<Rightarrow> val \<Rightarrow> state \<Rightarrow> unit result" where
  "writeValue E m obj keyName v s =
     outside (WriteValue obj keyName v) (writeValue_impl E m obj keyName v) s"

text \<open>\<open>deprecate(message, false, options)\<close>: the warning is reported, nothing else happens.\<close>

definition deprecate :: "string \<Rightarrow> state \<Rightarrow> state" where
  "deprecate ident s = s\<lparr>trace := trace s @ [Deprecate ident]\<rparr>"

subsection \<open>Reading, testing and writing a property\<close>

fun ref_of :: "val \<Rightarrow> ref option" where
  "ref_of (Obj r) = Some r"
| "ref_of (Func r) = Some r"
| "ref_of _ = None"

definition lookup_slot :: "heap \<Rightarrow> ref \<Rightarrow> string \<Rightarrow> slot option" where
  "lookup_slot h r k = (case own (h r) k of Some sl \<Rightarrow> Some sl | None \<Rightarrow> inherited (h r) k)"

text \<open>
  \<open>obj[key]\<close> as an expression. The source reads properties of values it has found to be
  objects or functions; of any other value the model reads \<open>undefined\<close>.
\<close>

definition Get :: "env \<Rightarrow> heap \<Rightarrow> val \<Rightarrow> string \<Rightarrow> val" where
  "Get E h obj k =
     (case ref_of obj of
        None \<Rightarrow> Undefined
      | Some r \<Rightarrow>
          (case lookup_slot h r k of
             None \<Rightarrow> Undefined
           | Some (Data v _) \<Rightarrow> v
           | Some (Accessor g _ _) \<Rightarrow> getter_impl E g obj h))"

text \<open>\<open>key in obj\<close>: an own or inherited property.\<close>

definition has_property :: "heap \<Rightarrow> val \<Rightarrow> string \<Rightarrow> bool" where
  "has_property h obj k =
     (case ref_of obj of None \<Rightarrow> False | Some r \<Rightarrow> lookup_slot h r k \<noteq> None)"

definition getOwnPropertyDescriptor :: "heap \<Rightarrow> val \<Rightarrow> string \<Rightarrow> slot option" where
  "getOwnPropertyDescriptor h obj k =
     (case ref_of obj of None \<Rightarrow> None | Some r \<Rightarrow> own (h r) k)"

definition put_own :: "heap \<Rightarrow> val \<Rightarrow> string \<Rightarrow> slot \<Rightarrow> heap" where
  "put_own h obj k sl =
     (case ref_of obj of
        None \<Rightarrow> h
      | Some r \<Rightarrow> h(r := (h r)\<lparr>own := (own (h r))(k \<mapsto> sl)\<rparr>))"

definition defineProperty :: "val \<Rightarrow> string \<Rightarrow> slot \<Rightarrow> state \<Rightarrow> state" where
  "defineProperty obj k sl s =
     \<lparr>heap = put_own (heap s) obj k sl, trace = trace s @ [DefineProperty obj k sl]\<rparr>"

text \<open>
  \<open>obj[key] = value\<close> as a statement (strict mode): an accessor, own or inherited, has its
  setter called with the value, and it is a \<open>TypeError\<close> when there is none; an own data
  slot takes the value; otherwise an own enumerable data slot is created.
\<close>

definition assign :: "env \<Rightarrow> val \<Rightarrow> string \<Rightarrow> val \<Rightarrow> state \<Rightarrow> unit result" where
  "assign E obj k v s =
     (let s1 = s\<lparr>trace := trace s @ [Assign obj k v]\<rparr> in
      case ref_of obj of
        None \<Rightarrow> raise TypeError s1
      | Some r \<Rightarrow>
          (case lookup_slot (heap s1) r k of
             Some (Accessor g st en) \<Rightarrow>
               (case invoke E st obj [v] s1 of
                  (Inl e, s2) \<Rightarrow> (Inl e, s2)
                | (Inr _, s2) \<Rightarrow> (Inr (), s2))
           | _ \<Rightarrow>
               (case own (heap s1 r) k of
                  Some (Data _ en) \<Rightarrow> (Inr (), s1\<lparr>heap := put_own (heap s1) obj k (Data v en)\<rparr>)
                | _ \<Rightarrow> (Inr (), s1\<lparr>heap := put_own (heap s1) obj k (Data v True)\<rparr>))))"

subsection \<open>The meta store\<close>

text \<open>
  Modelled from the spec: \<open>peekMeta\<close>, \<open>meta\<close>, \<open>descriptorFor\<close>, \<open>isDescriptor\<close> and
  the methods \<open>peekWatching\<close> and \<open>writeDescriptors\<close> of \<open>ember-meta\<close> are not among the
  sources. Sections 2 and 3: the meta of an object is created on first use; the
  descriptor registry maps object and key to a descriptor; the watch count of a key is an
  integer, 0 when nothing watches it. Section 4.3, step 3, calls a raw value that is a
  descriptor object a legacy descriptor: an object that carries the mark \<open>isDescriptor\<close>.
\<close>

definition peekMeta :: "heap \<Rightarrow> val \<Rightarrow> Meta option" where
  "peekMeta h obj = (case ref_of obj of None \<Rightarrow> None | Some r \<Rightarrow> meta_store (h r))"

definition empty_meta :: Meta where
  "empty_meta = \<lparr>watching = (\<lambda>_. 0), descriptors = Map.empty\<rparr>"

definition meta :: "heap \<Rightarrow> val \<Rightarrow> Meta" where
  "meta h obj = (case peekMeta h obj of None \<Rightarrow> empty_meta | Some m \<Rightarrow> m)"

definition peekWatching :: "Meta \<Rightarrow> val \<Rightarrow> nat" where
  "peekWatching m keyName = watching m (to_key keyName)"

definition descriptorFor :: "heap \<Rightarrow> val \<Rightarrow> val \<Rightarrow> val" where
  "descriptorFor h obj keyName =
     (case peekMeta h obj of
        None \<Rightarrow> Undefined
      | Some m \<Rightarrow> (case descriptors m (to_key keyName) of None \<Rightarrow> Undefined | Some d \<Rightarrow> d))"

definition isDescriptor :: "env \<Rightarrow> heap \<Rightarrow> val \<Rightarrow> bool" where
  "isDescriptor E h v = (v \<noteq> Null \<and> typeof v = TObject \<and> truthy (Get E h v ''isDescriptor''))"

definition writeDescriptors :: "val \<Rightarrow> val \<Rightarrow> val \<Rightarrow> state \<Rightarrow> state" where
  "writeDescriptors obj keyName cv s =
     (let m = meta (heap s) obj;
          m' = m\<lparr>descriptors := (descriptors m)(to_key keyName \<mapsto> cv)\<rparr>;
          h' = (case ref_of obj of
                  None \<Rightarrow> heap s
                | Some r \<Rightarrow> (heap s)(r := (heap s r)\<lparr>meta_store := Some m'\<rparr>))
      in \<lparr>heap = h', trace = trace s @ [WriteDescriptors obj keyName cv]\<rparr>)"

text \<open>
  Modelled from the spec: \<open>getPossibleMandatoryProxyValue\<close> of \<open>./property_get\<close> is not
  among the sources. Section 4.3, step 2: the current value is read raw.
\<close>

definition getPossibleMandatoryProxyValue :: "env \<Rightarrow> heap \<Rightarrow> val \<Rightarrow> val \<Rightarrow> val" where
  "getPossibleMandatoryProxyValue E h obj keyName = Get E h obj (to_key keyName)"

section \<open>The set pipeline\<close>

subsection \<open>The write that knows of mandatory setters (lines 154 to 172)\<close>

definition makeEnumerable :: "env \<Rightarrow> val \<Rightarrow> val \<Rightarrow> state \<Rightarrow> state" where
  "makeEnumerable E obj key s =
     (case getOwnPropertyDescriptor (heap s) obj (to_key key) of
        Some (Accessor g st en) \<Rightarrow>
          if truthy st \<and> truthy (Get E (heap s) st ''isMandatorySetter'')
          then defineProperty obj (to_key key) (Accessor g st True) s
          else s
      | _ \<Rightarrow> s)"

definition setWithMandatorySetter ::
  "env \<Rightarrow> Meta option \<Rightarrow> val \<Rightarrow> val \<Rightarrow> val \<Rightarrow> state \<Rightarrow> unit result" where
  "setWithMandatorySetter E m obj keyName v s =
     (if m \<noteq> None \<and> peekWatching (the m) keyName > 0
      then writeValue E (the m) obj keyName v (makeEnumerable E obj keyName s)
      else assign E obj (to_key keyName) v s)"

subsection \<open>A simple key (lines 80 to 151 of \<open>set\<close>)\<close>

definition set_key :: "env \<Rightarrow> val \<Rightarrow> val \<Rightarrow> val \<Rightarrow> state \<Rightarrow> val result" where
  "set_key E obj keyName v s =
     (let possibleDesc = descriptorFor (heap s) obj keyName in
      if possibleDesc \<noteq> Undefined then
        (case invoke E (Get E (heap s) possibleDesc ''set'') possibleDesc [obj, keyName, v] s of
           (Inl e, s1) \<Rightarrow> (Inl e, s1)
         | (Inr _, s1) \<Rightarrow> (Inr v, s1))
      else
        (let currentValue =
               (if DEBUG E \<and> HAS_NATIVE_PROXY E
                then getPossibleMandatoryProxyValue E (heap s) obj keyName
                else Get E (heap s) obj (to_key keyName)) in
         if PROPERTY_BASED_DESCRIPTORS E \<and> isDescriptor E (heap s) currentValue then
           (let s1 = deprecate ''ember-meta.descriptor-on-object'' s;
                cv = currentValue;
                s2 = defineProperty obj (to_key keyName)
                       (Accessor (DescriptorShim cv keyName) Undefined
                          (strict_eq (Get E (heap s1) cv ''enumerable'') (Bool False))) s1;
                s3 = writeDescriptors obj keyName cv s2 in
            case (if typeof (Get E (heap s3) cv ''setup'') = TFunction
                  then invoke E (Get E (heap s3) cv ''setup'') cv [obj, keyName] s3
                  else (Inr Undefined, s3)) of
              (Inl e, s4) \<Rightarrow> (Inl e, s4)
            | (Inr _, s4) \<Rightarrow>
                (case invoke E (Get E (heap s4) cv ''set'') cv [obj, keyName, v] s4 of
                   (Inl e, s5) \<Rightarrow> (Inl e, s5)
                 | (Inr _, s5) \<Rightarrow> (Inr v, s5)))
         else if currentValue = Undefined \<and> TObject = typeof obj
                 \<and> \<not> has_property (heap s) obj (to_key keyName)
                 \<and> typeof (Get E (heap s) obj ''setUnknownProperty'') = TFunction then
           (case invoke E (Get E (heap s) obj ''setUnknownProperty'') obj [keyName, v] s of
              (Inl e, s1) \<Rightarrow> (Inl e, s1)
            | (Inr _, s1) \<Rightarrow> (Inr v, s1))
         else
           (let m = peekMeta (heap s) obj in
            case (if DEBUG E then setWithMandatorySetter E m obj keyName v s
                  else assign E obj (to_key keyName) v s) of
              (Inl e, s1) \<Rightarrow> (Inl e, s1)
            | (Inr _, s1) \<Rightarrow>
                if strict_neq currentValue v then
                  (case notifyPropertyChange E obj keyName m s1 of
                     (Inl e, s2) \<Rightarrow> (Inl e, s2)
                   | (Inr _, s2) \<Rightarrow> (Inr v, s2))
                else (Inr v, s1))))"

subsection \<open>\<open>set\<close>, \<open>setPath\<close> and \<open>trySet\<close>\<close>

text \<open>
  The source's \<open>set\<close> is \<open>set_prop\<close> here (\<open>set\<close> is the set of a list's elements in
  HOL). It takes its argument list, so that \<open>arguments.length\<close> is the length of the list
  and a parameter past its end is \<open>undefined\<close>.
\<close>

definition arg :: "val list \<Rightarrow> nat \<Rightarrow> val" where
  "arg args i = (if i < length args then args ! i else Undefined)"

text \<open>
  Modelled from the spec: \<open>assert\<close> of \<open>@ember/debug\<close> is not among the sources.
  Sections 4.3 and 7: a failed assertion raises its error at the point of the violation,
  written here as \<open>if \<not> condition then raise error\<close>.
\<close>

function set_prop :: "env \<Rightarrow> val list \<Rightarrow> state \<Rightarrow> val result"
  and setPath :: "env \<Rightarrow> val \<Rightarrow> string \<Rightarrow> val \<Rightarrow> val \<Rightarrow> state \<Rightarrow> val result" where
  "set_prop E args s =
     (let obj = arg args 0; keyName = arg args 1; v = arg args 2; tolerant = arg args 3 in
      if \<not> (length args = 3 \<or> length args = 4) then raise InvalidArgument s
      else if \<not> ((truthy obj \<and> typeof obj = TObject) \<or> typeof obj = TFunction)
        then raise InvalidArgument s
      else if \<not> (typeof keyName = TString \<or> (typeof keyName = TNumber \<and> \<not> isNaN keyName))
        then raise InvalidArgument s
      else if \<not> (typeof keyName \<noteq> TString \<or> lastIndexOf0 (to_key keyName) ''this.'' \<noteq> 0)
        then raise InvalidArgument s
      else if truthy (Get E (heap s) obj ''isDestroyed'') then
        (if truthy tolerant then (Inr Undefined, s) else raise DestroyedObjectError s)
      else if isPath keyName then setPath E obj (to_key keyName) v tolerant s
      else set_key E obj keyName v s)"
| "setPath E root path v tolerant s =
     (let parts = split_dot path;
          keyName = last parts;
          parts' = butlast parts in
      if \<not> (length (trim keyName) > 0) then raise InvalidArgument s
      else
        (let newPath = join_dot parts' in
         case getPath E root newPath s of
           (Inl e, s1) \<Rightarrow> (Inl e, s1)
         | (Inr newRoot, s1) \<Rightarrow>
             if newRoot \<noteq> Null \<and> newRoot \<noteq> Undefined then set_prop E [newRoot, Str keyName, v] s1
             else if \<not> truthy tolerant then raise PathResolutionError s1
             else (Inr Undefined, s1)))"
  by pat_completeness auto
termination
proof -
  have seg: "split_dot p \<noteq> [] \<and> (\<forall>q \<in> set (split_dot p). CHR ''.'' \<notin> set q)" for p
    by (induction p) (auto split: list.splits)
  have nodot: "CHR ''.'' \<notin> set (last (split_dot p))" for p
    using seg [of p] last_in_set [of "split_dot p"] by blast
  show ?thesis
    by (relation "measure (\<lambda>x. case x of
                    Inl (E, args, s) \<Rightarrow> (if isPath (arg args 1) then 3 else 1)
                  | Inr _ \<Rightarrow> 2)")
       (auto simp: arg_def nodot)
qed

text \<open>Lines 212 to 214.\<close>

definition trySet :: "env \<Rightarrow> val \<Rightarrow> val \<Rightarrow> val \<Rightarrow> state \<Rightarrow> val result" where
  "trySet E root path v s = set_prop E [root, path, v, Bool True] s"

declare set_prop.simps [simp del] setPath.simps [simp del]

section \<open>Vocabulary of the properties\<close>

text \<open>The conditions of the four assertions at the head of \<open>set\<close> (lines 51 to 66).\<close>

definition arity_ok :: "val list \<Rightarrow> bool" where
  "arity_ok args = (length args = 3 \<or> length args = 4)"

definition is_object :: "val \<Rightarrow> bool" where
  "is_object obj = ((truthy obj \<and> typeof obj = TObject) \<or> typeof obj = TFunction)"

definition key_ok :: "val \<Rightarrow> bool" where
  "key_ok keyName =
     ((typeof keyName = TString \<or> (typeof keyName = TNumber \<and> \<not> isNaN keyName))
      \<and> (typeof keyName \<noteq> TString \<or> lastIndexOf0 (to_key keyName) ''this.'' \<noteq> 0))"

definition isDestroyed :: "env \<Rightarrow> heap \<Rightarrow> val \<Rightarrow> bool" where
  "isDestroyed E h obj = truthy (Get E h obj ''isDestroyed'')"

text \<open>The value that \<open>set\<close> reads as \<open>currentValue\<close> (lines 88 to 93).\<close>

definition currentValue :: "env \<Rightarrow> heap \<Rightarrow> val \<Rightarrow> val \<Rightarrow> val" where
  "currentValue E h obj keyName =
     (if DEBUG E \<and> HAS_NATIVE_PROXY E
      then getPossibleMandatoryProxyValue E h obj keyName
      else Get E h obj (to_key keyName))"

text \<open>The condition under which \<open>set\<close> hands the key to \<open>setUnknownProperty\<close> (lines 129 to 134).\<close>

definition routes_unknown :: "env \<Rightarrow> heap \<Rightarrow> val \<Rightarrow> val \<Rightarrow> bool" where
  "routes_unknown E h obj keyName =
     (currentValue E h obj keyName = Undefined \<and> TObject = typeof obj
      \<and> \<not> has_property h obj (to_key keyName)
      \<and> typeof (Get E h obj ''setUnknownProperty'') = TFunction)"

text \<open>The events that a run from \<open>s\<close> to \<open>s'\<close> added to the trace.\<close>

definition new_events :: "state \<Rightarrow> state \<Rightarrow> event list" where
  "new_events s s' = drop (length (trace s)) (trace s')"

fun is_Notify :: "event \<Rightarrow> bool" where
  "is_Notify (Notify _ _) = True"
| "is_Notify _ = False"

text \<open>Whether a call of \<open>set\<close> triggered the change notification.\<close>

definition notified :: "env \<Rightarrow> val list \<Rightarrow> state \<Rightarrow> bool" where
  "notified E args s = list_ex is_Notify (new_events s (snd (set_prop E args s)))"

fun is_DefineProperty :: "event \<Rightarrow> bool" where
  "is_DefineProperty (DefineProperty _ _ _) = True"
| "is_DefineProperty _ = False"

fun is_Call :: "event \<Rightarrow> bool" where
  "is_Call (Call _ _ _) = True"
| "is_Call _ = False"

text \<open>A run from \<open>s\<close> to \<open>s'\<close> that only extended the trace, and by no notification.\<close>

definition quiet :: "state \<Rightarrow> state \<Rightarrow> bool" where
  "quiet s s' = (trace s' = trace s @ new_events s s' \<and> \<not> list_ex is_Notify (new_events s s'))"

text \<open>
  The test of \<open>makeEnumerable\<close> (line 167): the own property is an accessor whose setter
  carries the mark \<open>isMandatorySetter\<close>; and a descriptor with \<open>enumerable\<close> set to true.
\<close>

definition mandatory_setter_installed :: "env \<Rightarrow> heap \<Rightarrow> val \<Rightarrow> val \<Rightarrow> bool" where
  "mandatory_setter_installed E h obj keyName =
     (case getOwnPropertyDescriptor h obj (to_key keyName) of
        Some (Accessor g st en) \<Rightarrow> truthy st \<and> truthy (Get E h st ''isMandatorySetter'')
      | _ \<Rightarrow> False)"

fun with_enumerable :: "slot \<Rightarrow> slot" where
  "with_enumerable (Data v en) = Data v True"
| "with_enumerable (Accessor g st en) = Accessor g st True"





definition functions_leave :: "env \<Rightarrow> val \<Rightarrow> bool" where
  "functions_leave E obj =
     (\<forall>f this args h. case ref_of obj of
               None \<Rightarrow> True
             | Some r \<Rightarrow> snd (call_impl E f this args h) r = h r)"

definition yields_no_destroyed :: "env \<Rightarrow> bool" where
  "yields_no_destroyed E =
     (\<forall>root path h. case getPath_impl E root path h of
                       (Inr v, h') \<Rightarrow> \<not> isDestroyed E h' v
                     | (Inl x, h') \<Rightarrow> True)"

section \<open>An environment and some heaps to run the pipeline on\<close>

text \<open>
  An environment of a debug build in which every function returns \<open>undefined\<close> and
  leaves the heap as it is, and nothing observes a change. A path is resolved by reading
  data slots link by link; the resolution ends with \<open>undefined\<close> at a nullish link
  (section 4.2 of the spec) and at a destroyed one (section 4.6: no write where a link is
  missing or destroyed), so it never yields a destroyed object. Its \<open>meta.writeValue\<close>
  keeps the value in the meta's own table of values, which is no part of the heap here,
  so it leaves the heap as it is.
\<close>

definition empty_obj :: jsobj where
  "empty_obj = \<lparr>own = Map.empty, inherited = Map.empty, meta_store = None\<rparr>"

definition plain_read :: "heap \<Rightarrow> val \<Rightarrow> string \<Rightarrow> val" where
  "plain_read h obj k =
     (case ref_of obj of
        None \<Rightarrow> Undefined
      | Some r \<Rightarrow> (case lookup_slot h r k of Some (Data v _) \<Rightarrow> v | _ \<Rightarrow> Undefined))"

fun walk :: "heap \<Rightarrow> val \<Rightarrow> string list \<Rightarrow> val" where
  "walk h obj [] = obj"
| "walk h obj (k # ks) =
     (if obj = Null \<or> obj = Undefined then Undefined
      else (let x = plain_read h obj k in
            if truthy x \<and> truthy (plain_read h x ''isDestroyed'') then Undefined
            else walk h x ks))"

definition env0 :: env where
  "env0 = \<lparr>DEBUG = True, HAS_NATIVE_PROXY = True, PROPERTY_BASED_DESCRIPTORS = True,
           call_impl = (\<lambda>f this args h. (Inr Undefined, h)),
           getter_impl = (\<lambda>g this h. Undefined),
           getPath_impl = (\<lambda>root path h. (Inr (walk h root (split_dot path)), h)),
           notifyPropertyChange_impl = (\<lambda>obj keyName m h. (Inr (), h)),
           writeValue_impl = (\<lambda>m obj keyName v h. (Inr (), h))\<rparr>"

text \<open>Every object empty.\<close>

definition heap_plain :: heap where
  "heap_plain = (\<lambda>_. empty_obj)"

text \<open>Object 1 has the descriptor object 2 registered for \<open>foo\<close>; its setter is function 3.\<close>

definition heap_computed :: heap where
  "heap_computed = heap_plain
     (1 := empty_obj\<lparr>meta_store := Some (empty_meta\<lparr>descriptors := [''foo'' \<mapsto> Obj 2]\<rparr>)\<rparr>,
      2 := empty_obj\<lparr>own := [''set'' \<mapsto> Data (Func 3) True]\<rparr>)"

text \<open>Object 1 holds, under \<open>a\<close>, the destroyed object 2.\<close>

definition heap_destroyed :: heap where
  "heap_destroyed = heap_plain
     (1 := empty_obj\<lparr>own := [''a'' \<mapsto> Data (Obj 2) True]\<rparr>,
      2 := empty_obj\<lparr>own := [''isDestroyed'' \<mapsto> Data (Bool True) True]\<rparr>)"

text \<open>Object 1 holds, under \<open>a\<close>, the empty object 2, and under \<open>n\<close> the number 5.\<close>

definition heap_nested :: heap where
  "heap_nested = heap_plain
     (1 := empty_obj\<lparr>own := [''a'' \<mapsto> Data (Obj 2) True, ''n'' \<mapsto> Data (Num (Number ''5'')) True]\<rparr>)"

text \<open>Reference 1 has the method \<open>setUnknownProperty\<close>, function 2.\<close>

definition heap_hook :: heap where
  "heap_hook = heap_plain
     (1 := empty_obj\<lparr>own := [''setUnknownProperty'' \<mapsto> Data (Func 2) True]\<rparr>)"

text \<open>
  Object 1 holds, as the raw value of \<open>foo\<close>, the descriptor object 2, which is not
  registered and has no \<open>enumerable\<close> property; object 7 the same with a descriptor whose
  \<open>enumerable\<close> is \<open>false\<close>.
\<close>

definition heap_legacy :: heap where
  "heap_legacy = heap_plain
     (1 := empty_obj\<lparr>own := [''foo'' \<mapsto> Data (Obj 2) True]\<rparr>,
      2 := empty_obj\<lparr>own := [''isDescriptor'' \<mapsto> Data (Bool True) True,
                              ''set'' \<mapsto> Data (Func 3) True]\<rparr>,
      7 := empty_obj\<lparr>own := [''foo'' \<mapsto> Data (Obj 8) True]\<rparr>,
      8 := empty_obj\<lparr>own := [''isDescriptor'' \<mapsto> Data (Bool True) True,
                              ''enumerable'' \<mapsto> Data (Bool False) True,
                              ''set'' \<mapsto> Data (Func 3) True]\<rparr>)"

text \<open>
  Object 1 has one watcher on \<open>foo\<close> and the mandatory-setter trap installed there, not
  enumerable: the setter is function 5, which carries the mark \<open>isMandatorySetter\<close>.
\<close>

definition heap_watched :: heap where
  "heap_watched = heap_plain
     (1 := \<lparr>own = [''foo'' \<mapsto> Accessor (GetterFn (Func 4)) (Func 5) False],
            inherited = Map.empty,
            meta_store = Some (empty_meta\<lparr>watching := (\<lambda>k. if k = ''foo'' then 1 else 0)\<rparr>)\<rparr>,
      5 := empty_obj\<lparr>own := [''isMandatorySetter'' \<mapsto> Data (Bool True) True]\<rparr>)"

text \<open>
  Object 1 has an accessor under \<open>x\<close>, with getter 4 and setter 5. In the environment
  above the setter drops the value and the getter yields \<open>undefined\<close>.
\<close>

definition heap_accessor :: heap where
  "heap_accessor = heap_plain
     (1 := empty_obj\<lparr>own := [''x'' \<mapsto> Accessor (GetterFn (Func 4)) (Func 5) True]\<rparr>)"



text \<open>The environment above with an observer that assigns \<open>0\<close> to the key it is told of.\<close>

definition env_observer :: env where
  "env_observer = env0\<lparr>notifyPropertyChange_impl :=
     (\<lambda>obj keyName m h. (Inr (), put_own h obj (to_key keyName) (Data (Num (Number ''0'')) True)))\<rparr>"

section \<open>Properties of the pipeline\<close>

subsection \<open>Auxiliary facts\<close>

lemmas model_defs =
  env0_def heap_plain_def empty_obj_def empty_meta_def plain_read_def
  is_object_def key_ok_def isDestroyed_def lastIndexOf0_def
  Get_def lookup_slot_def descriptorFor_def peekMeta_def has_property_def currentValue_def
  getPossibleMandatoryProxyValue_def routes_unknown_def isDescriptor_def

text \<open>\<open>set\<close> by its guards: the four assertions, the destroyed object, the path.\<close>

lemma set_prop_guards:
  "set_prop E args s =
     (if \<not> (arity_ok args \<and> is_object (arg args 0) \<and> key_ok (arg args 1))
      then (Inl InvalidArgument, s)
      else if isDestroyed E (heap s) (arg args 0)
      then (if truthy (arg args 3) then (Inr Undefined, s) else (Inl DestroyedObjectError, s))
      else if isPath (arg args 1)
      then setPath E (arg args 0) (to_key (arg args 1)) (arg args 2) (arg args 3) s
      else set_key E (arg args 0) (arg args 1) (arg args 2) s)"
  by (auto simp: set_prop.simps arity_ok_def is_object_def key_ok_def isDestroyed_def
      raise_def Let_def)

lemma arg3 [simp]:
  "arg [a, b, c] 0 = a" "arg [a, b, c] (Suc 0) = b" "arg [a, b, c] 2 = c"
  "arg [a, b, c] 3 = Undefined" "arity_ok [a, b, c]"
  by (simp_all add: arg_def arity_ok_def)

lemma arg4 [simp]:
  "arg [a, b, c, d] 0 = a" "arg [a, b, c, d] (Suc 0) = b" "arg [a, b, c, d] 2 = c"
  "arg [a, b, c, d] 3 = d" "arity_ok [a, b, c, d]"
  by (simp_all add: arg_def arity_ok_def)

lemma invoke_function:
  assumes "typeof f = TFunction" "call_impl E f this args (heap s) = (r, h')"
  shows "invoke E f this args s =
           ((case r of Inl x \<Rightarrow> Inl (Thrown x) | Inr u \<Rightarrow> Inr u),
            \<lparr>heap = h', trace = trace s @ [Call f this args]\<rparr>)"
  using assms by (simp add: invoke_def outside_def split: sum.splits)

lemma isDescriptor_Undefined [simp]: "\<not> isDescriptor E h Undefined"
  by (simp add: isDescriptor_def)

lemma set_key_descriptor:
  assumes "descriptorFor (heap s) obj keyName = d" "d \<noteq> Undefined"
    "typeof (Get E (heap s) d ''set'') = TFunction"
    "call_impl E (Get E (heap s) d ''set'') d [obj, keyName, v] (heap s) = (r, h')"
  shows "set_key E obj keyName v s =
           ((case r of Inl x \<Rightarrow> Inl (Thrown x) | Inr _ \<Rightarrow> Inr v),
            \<lparr>heap = h', trace = trace s @ [Call (Get E (heap s) d ''set'') d [obj, keyName, v]]\<rparr>)"
  using assms by (simp add: set_key_def invoke_function split: sum.splits)

lemma set_key_unknown:
  assumes "descriptorFor (heap s) obj keyName = Undefined"
    "routes_unknown E (heap s) obj keyName"
    "call_impl E (Get E (heap s) obj ''setUnknownProperty'') obj [keyName, v] (heap s) = (r, h')"
  shows "set_key E obj keyName v s =
           ((case r of Inl x \<Rightarrow> Inl (Thrown x) | Inr _ \<Rightarrow> Inr v),
            \<lparr>heap = h',
             trace = trace s @ [Call (Get E (heap s) obj ''setUnknownProperty'') obj [keyName, v]]\<rparr>)"
proof -
  have cur: "currentValue E (heap s) obj keyName = Undefined"
    and rest: "TObject = typeof obj" "\<not> has_property (heap s) obj (to_key keyName)"
      "typeof (Get E (heap s) obj ''setUnknownProperty'') = TFunction"
    using assms(2) by (simp_all add: routes_unknown_def)
  show ?thesis
    using assms(1,3) cur rest
    by (simp add: set_key_def currentValue_def invoke_function split: sum.splits)
qed

lemma quiet_refl [simp]: "quiet s s"
  by (simp add: quiet_def new_events_def)

lemma quiet_heap [simp]: "quiet s (s\<lparr>heap := h\<rparr>)"
  by (simp add: quiet_def new_events_def)



lemma quiet_event: "\<not> is_Notify ev \<Longrightarrow> trace s' = trace s @ [ev] \<Longrightarrow> quiet s s'"
  by (simp add: quiet_def new_events_def)

lemma outside_quiet: "outside ev f s = (r, s') \<Longrightarrow> \<not> is_Notify ev \<Longrightarrow> quiet s s'"
  by (auto simp: outside_def intro: quiet_event split: prod.splits sum.splits)

lemma invoke_quiet: "invoke E f this args s = (r, s') \<Longrightarrow> quiet s s'"
  by (auto simp: invoke_def raise_def dest: outside_quiet split: if_splits)












lemma snd_pass [simp]:
  "snd (case p of (Inl e, s1) \<Rightarrow> (Inl e, s1) | (Inr x, s1) \<Rightarrow> (Inr (f x), s1)) = snd p"
  by (cases p; cases "fst p") auto

lemma cur_unfold:
  "(if DEBUG E \<and> HAS_NATIVE_PROXY E
    then getPossibleMandatoryProxyValue E h obj keyName
    else Get E h obj (to_key keyName)) = currentValue E h obj keyName"
  by (simp add: currentValue_def)


lemma set_key_routed:
  assumes "descriptorFor (heap s) obj keyName = Undefined"
    "routes_unknown E (heap s) obj keyName"
  shows "set_key E obj keyName v s =
     (case invoke E (Get E (heap s) obj ''setUnknownProperty'') obj [keyName, v] s of
        (Inl e, s1) \<Rightarrow> (Inl e, s1)
      | (Inr _, s1) \<Rightarrow> (Inr v, s1))"
proof -
  have cur: "currentValue E (heap s) obj keyName = Undefined"
    and rest: "TObject = typeof obj" "\<not> has_property (heap s) obj (to_key keyName)"
      "typeof (Get E (heap s) obj ''setUnknownProperty'') = TFunction"
    using assms(2) by (simp_all add: routes_unknown_def)
  show ?thesis
    unfolding set_key_def Let_def cur_unfold
    using assms(1) cur rest by simp
qed

lemma strict_eq_False: "strict_eq x (Bool False) = (x = Bool False)"
  by (cases "(x, Bool False)" rule: strict_eq.cases) auto


lemma set_key_legacy:
  assumes "descriptorFor (heap s) obj keyName = Undefined"
    "PROPERTY_BASED_DESCRIPTORS E"
    "isDescriptor E (heap s) (currentValue E (heap s) obj keyName)"
    "cv = currentValue E (heap s) obj keyName"
    "s3 = writeDescriptors obj keyName cv
            (defineProperty obj (to_key keyName)
               (Accessor (DescriptorShim cv keyName) Undefined
                  (Get E (heap s) cv ''enumerable'' = Bool False))
               (deprecate ''ember-meta.descriptor-on-object'' s))"
  shows "set_key E obj keyName v s =
     (case (if typeof (Get E (heap s3) cv ''setup'') = TFunction
            then invoke E (Get E (heap s3) cv ''setup'') cv [obj, keyName] s3
            else (Inr Undefined, s3)) of
        (Inl e, s4) \<Rightarrow> (Inl e, s4)
      | (Inr _, s4) \<Rightarrow>
          (case invoke E (Get E (heap s4) cv ''set'') cv [obj, keyName, v] s4 of
             (Inl e, s5) \<Rightarrow> (Inl e, s5)
           | (Inr _, s5) \<Rightarrow> (Inr v, s5)))"
proof -
  have h: "heap (deprecate ''ember-meta.descriptor-on-object'' s) = heap s"
    by (simp add: deprecate_def)
  show ?thesis
    unfolding set_key_def Let_def cur_unfold h strict_eq_False
    using assms(1-3) unfolding assms(4,5) by simp
qed

lemma legacy_trace:
  "trace (writeDescriptors obj keyName cv (defineProperty obj k sl (deprecate ident s))) =
     trace s @ [Deprecate ident, DefineProperty obj k sl, WriteDescriptors obj keyName cv]"
  by (simp add: writeDescriptors_def defineProperty_def deprecate_def Let_def)


lemma invoke_calls:
  "\<exists>evs. trace (snd (invoke E f this args s)) = trace s @ evs \<and> list_all is_Call evs"
proof (cases "typeof f = TFunction")
  case True
  obtain r h' where c: "call_impl E f this args (heap s) = (r, h')"
    by (cases "call_impl E f this args (heap s)")
  have "trace (snd (invoke E f this args s)) = trace s @ [Call f this args]"
    using True c by (simp add: invoke_def outside_def split: sum.splits)
  then show ?thesis by (intro exI [of _ "[Call f this args]"]) simp
next
  case False
  then have "trace (snd (invoke E f this args s)) = trace s @ []"
    by (simp add: invoke_def raise_def)
  then show ?thesis by (intro exI [of _ "[]"]) simp
qed

lemma set_key_legacy_trace:
  assumes "descriptorFor (heap s) obj keyName = Undefined"
    "PROPERTY_BASED_DESCRIPTORS E"
    "isDescriptor E (heap s) cv"
    "cv = currentValue E (heap s) obj keyName"
  shows "\<exists>evs. trace (snd (set_key E obj keyName v s)) =
           trace s @ [Deprecate ''ember-meta.descriptor-on-object'',
                      DefineProperty obj (to_key keyName)
                        (Accessor (DescriptorShim cv keyName) Undefined
                           (Get E (heap s) cv ''enumerable'' = Bool False)),
                      WriteDescriptors obj keyName cv] @ evs
         \<and> list_all is_Call evs"
proof -
  define s3 where "s3 = writeDescriptors obj keyName cv
            (defineProperty obj (to_key keyName)
               (Accessor (DescriptorShim cv keyName) Undefined
                  (Get E (heap s) cv ''enumerable'' = Bool False))
               (deprecate ''ember-meta.descriptor-on-object'' s))"
  let ?pre = "[Deprecate ''ember-meta.descriptor-on-object'',
               DefineProperty obj (to_key keyName)
                 (Accessor (DescriptorShim cv keyName) Undefined
                    (Get E (heap s) cv ''enumerable'' = Bool False)),
               WriteDescriptors obj keyName cv]"
  have t3: "trace s3 = trace s @ ?pre"
    unfolding s3_def by (rule legacy_trace)
  define step where "step = (if typeof (Get E (heap s3) cv ''setup'') = TFunction
            then invoke E (Get E (heap s3) cv ''setup'') cv [obj, keyName] s3
            else (Inr Undefined, s3))"
  have eq: "set_key E obj keyName v s =
     (case step of
        (Inl e, s4) \<Rightarrow> (Inl e, s4)
      | (Inr _, s4) \<Rightarrow>
          (case invoke E (Get E (heap s4) cv ''set'') cv [obj, keyName, v] s4 of
             (Inl e, s5) \<Rightarrow> (Inl e, s5)
           | (Inr _, s5) \<Rightarrow> (Inr v, s5)))"
    unfolding step_def
    using assms(1,2) assms(3) [unfolded assms(4)] assms(4) s3_def
    by (rule set_key_legacy)
  obtain r4 s4 where st: "step = (r4, s4)" by (cases step)
  have "\<exists>evs. trace (snd step) = trace s3 @ evs \<and> list_all is_Call evs"
    unfolding step_def using invoke_calls [of E _ cv "[obj, keyName]" s3]
    by (auto intro: exI [of _ "[]"])
  then obtain evs4 where t4: "trace s4 = trace s3 @ evs4" "list_all is_Call evs4"
    using st by auto
  show ?thesis
  proof (cases r4)
    case (Inl e)
    then have "snd (set_key E obj keyName v s) = s4" using eq st by simp
    then show ?thesis using t3 t4 by (intro exI [of _ evs4]) simp
  next
    case (Inr u)
    then have r: "snd (set_key E obj keyName v s) =
                  snd (invoke E (Get E (heap s4) cv ''set'') cv [obj, keyName, v] s4)"
      using eq st by simp
    obtain evs5 where t5:
      "trace (snd (invoke E (Get E (heap s4) cv ''set'') cv [obj, keyName, v] s4)) = trace s4 @ evs5"
      "list_all is_Call evs5"
      using invoke_calls [of E _ cv "[obj, keyName, v]" s4] by blast
    show ?thesis using r t3 t4 t5 by (intro exI [of _ "evs4 @ evs5"]) simp
  qed
qed


lemma calls_define: "list_all is_Call evs \<Longrightarrow> filter is_DefineProperty evs = []"
  by (induction evs) (auto elim: is_Call.elims)


lemmas run_defs =
  set_prop_guards set_key_def setWithMandatorySetter_def assign_def invoke_def outside_def
  notifyPropertyChange_def writeValue_def raise_def put_own_def Let_def makeEnumerable_def
  defineProperty_def writeDescriptors_def deprecate_def meta_def peekWatching_def
  getOwnPropertyDescriptor_def getPath_def setPath.simps strict_neq_def
  new_events_def trim_def is_space_def

lemma invoke_quiet_snd: "quiet s (snd (invoke E f this args s))"
  by (cases "invoke E f this args s") (simp add: invoke_quiet)


lemma quiet_not_notified: "quiet s s' \<Longrightarrow> \<not> list_ex is_Notify (new_events s s')"
  by (simp add: quiet_def)


lemma setPath_unfold:
  "setPath E root path v tolerant s =
     (if trim (last (split_dot path)) = [] then (Inl InvalidArgument, s)
      else (case getPath E root (join_dot (butlast (split_dot path))) s of
         (Inl e, s1) \<Rightarrow> (Inl e, s1)
       | (Inr newRoot, s1) \<Rightarrow>
           if newRoot \<noteq> Null \<and> newRoot \<noteq> Undefined
           then set_prop E [newRoot, Str (last (split_dot path)), v] s1
           else if \<not> truthy tolerant then (Inl PathResolutionError, s1)
           else (Inr Undefined, s1)))"
  by (auto simp: setPath.simps Let_def raise_def split: prod.splits sum.splits)

lemma split_dot_segments:
  "split_dot p \<noteq> [] \<and> (\<forall>q \<in> set (split_dot p). CHR ''.'' \<notin> set q)"
  by (induction p) (auto split: list.splits)

lemma last_segment_no_dot: "CHR ''.'' \<notin> set (last (split_dot p))"
  using split_dot_segments [of p] last_in_set [of "split_dot p"] by blast

lemma last_segment_key_ok: "key_ok (Str (last (split_dot p)))"
proof -
  have ne: "take (length ''this.'') (last (split_dot p)) \<noteq> ''this.''"
  proof
    assume a: "take (length ''this.'') (last (split_dot p)) = ''this.''"
    have "set (take (length ''this.'') (last (split_dot p))) \<subseteq> set (last (split_dot p))"
      by (rule set_take_subset)
    then have "set ''this.'' \<subseteq> set (last (split_dot p))"
      unfolding a .
    then show False using last_segment_no_dot [of p] by auto
  qed
  show ?thesis
    unfolding key_ok_def lastIndexOf0_def using ne by simp
qed

lemma getPath_error:
  "getPath E root path s = (Inl e, s') \<Longrightarrow> \<exists>x. e = Thrown x"
  by (auto simp: getPath_def outside_def split: prod.splits sum.splits)

lemma invoke_error:
  "invoke E f this args s = (Inl e, s') \<Longrightarrow> e = TypeError \<or> (\<exists>x. e = Thrown x)"
  by (auto simp: invoke_def outside_def raise_def split: if_splits prod.splits sum.splits)

lemma assign_error:
  "assign E obj k v s = (Inl e, s') \<Longrightarrow> e = TypeError \<or> (\<exists>x. e = Thrown x)"
  by (auto simp: assign_def Let_def raise_def dest: invoke_error
      split: if_splits prod.splits sum.splits option.splits slot.splits)

lemma setWithMandatorySetter_error:
  "setWithMandatorySetter E m obj k v s = (Inl e, s') \<Longrightarrow> e = TypeError \<or> (\<exists>x. e = Thrown x)"
  by (auto simp: setWithMandatorySetter_def writeValue_def outside_def dest: assign_error
      split: if_splits prod.splits sum.splits)

lemma notify_error:
  "notifyPropertyChange E obj k m s = (Inl e, s') \<Longrightarrow> (\<exists>x. e = Thrown x)"
  by (auto simp: notifyPropertyChange_def outside_def split: if_splits prod.splits sum.splits)

lemma set_key_error:
  "set_key E obj k v s = (Inl e, s') \<Longrightarrow> e = TypeError \<or> (\<exists>x. e = Thrown x)"
  unfolding set_key_def Let_def
  by (auto dest: invoke_error assign_error setWithMandatorySetter_error notify_error
      split: if_splits prod.splits sum.splits)

lemma set_key_error_fst:
  "fst (set_key E obj k v s) \<noteq> Inl InvalidArgument"
  "fst (set_key E obj k v s) \<noteq> Inl DestroyedObjectError"
  "fst (set_key E obj k v s) \<noteq> Inl PathResolutionError"
  using set_key_error [of E obj k v s _ "snd (set_key E obj k v s)"]
  by (cases "set_key E obj k v s"; fastforce)+

text \<open>The recursive call of setPath: three arguments, a simple key.\<close>

lemma set_prop_last_segment:
  "set_prop E [newRoot, Str (last (split_dot p)), v] s =
     (if \<not> is_object newRoot then (Inl InvalidArgument, s)
      else if isDestroyed E (heap s) newRoot then (Inl DestroyedObjectError, s)
      else set_key E newRoot (Str (last (split_dot p))) v s)"
  by (simp add: set_prop_guards last_segment_key_ok last_segment_no_dot)


lemma makeEnumerable_installed:
  assumes "mandatory_setter_installed E (heap s) obj keyName"
  shows "makeEnumerable E obj keyName s =
           defineProperty obj (to_key keyName)
             (with_enumerable (the (getOwnPropertyDescriptor (heap s) obj (to_key keyName)))) s"
  using assms
  by (auto simp: mandatory_setter_installed_def makeEnumerable_def
      split: option.splits slot.splits)

lemma makeEnumerable_not_installed:
  assumes "\<not> mandatory_setter_installed E (heap s) obj keyName"
  shows "makeEnumerable E obj keyName s = s"
  using assms
  by (auto simp: mandatory_setter_installed_def makeEnumerable_def
      split: option.splits slot.splits)

lemma own_after_defineProperty:
  assumes "getOwnPropertyDescriptor (heap s) obj k \<noteq> None"
  shows "getOwnPropertyDescriptor (heap (defineProperty obj k sl s)) obj k = Some sl"
  using assms
  by (auto simp: getOwnPropertyDescriptor_def defineProperty_def put_own_def
      split: option.splits)

lemma writeValue_events:
  "new_events s0 (snd (writeValue E m obj keyName v s)) =
     drop (length (trace s0)) (trace s @ [WriteValue obj keyName v])"
  by (auto simp: writeValue_def outside_def new_events_def split: prod.splits sum.splits)

text \<open>The plain write stores the value in an own data slot, and reading gives it back.\<close>

lemma is_object_ref: "is_object obj \<Longrightarrow> \<exists>r. ref_of obj = Some r"
  by (cases obj) (auto simp: is_object_def)







text \<open>Functions that leave an object as it is, and a resolution that yields no destroyed object.\<close>

lemma invoke_heap:
  assumes "functions_leave E obj" and "ref_of obj = Some r"
  shows "heap (snd (invoke E f this args s)) r = heap s r"
proof -
  have "snd (call_impl E f this args (heap s)) r = heap s r"
    using assms by (simp add: functions_leave_def split: option.splits)
  then show ?thesis
    by (auto simp: invoke_def outside_def raise_def split: prod.splits sum.splits)
qed

lemma getPath_not_destroyed:
  assumes "yields_no_destroyed E" and "getPath E root path s = (Inr v, s1)"
  shows "\<not> isDestroyed E (heap s1) v"
proof -
  have "case getPath_impl E root path (heap s) of
          (Inr v, h') \<Rightarrow> \<not> isDestroyed E h' v | (Inl x, h') \<Rightarrow> True"
    using assms(1) by (simp add: yields_no_destroyed_def)
  then show ?thesis
    using assms(2) by (auto simp: getPath_def outside_def split: prod.splits sum.splits)
qed

lemma walk_not_destroyed:
  "ks \<noteq> [] \<Longrightarrow> \<not> truthy (plain_read h (walk h obj ks) ''isDestroyed'')"
proof (induction ks arbitrary: obj)
  case Nil
  then show ?case by simp
next
  case (Cons k ks)
  show ?case
  proof (cases ks)
    case Nil
    then show ?thesis
      by (cases "plain_read h obj k") (auto simp: Let_def plain_read_def)
  next
    case (Cons k' ks')
    then show ?thesis
      using Cons.IH by (auto simp: Let_def plain_read_def)
  qed
qed

lemma env0_yields_no_destroyed: "yields_no_destroyed env0"
proof -
  have g: "Get env0 h v k = plain_read h v k" for h v k
    by (auto simp: Get_def plain_read_def env0_def split: option.splits slot.splits)
  have gp: "getPath_impl env0 root path h = (Inr (walk h root (split_dot path)), h)"
    for root path h
    by (simp add: env0_def)
  have "split_dot p \<noteq> []" for p
    using split_dot_segments [of p] by simp
  then show ?thesis
    by (simp add: yields_no_destroyed_def isDestroyed_def g gp walk_not_destroyed)
qed

subsection \<open>A registered descriptor owns the write\<close>

text \<open>
  Claim C1. Let \<open>obj\<close> be an object that is not destroyed and \<open>keyName\<close> a simple key for
  which a descriptor \<open>d\<close> is registered. Then \<open>set(obj, keyName, v)\<close> does exactly one
  thing: it calls \<open>d.set(obj, keyName, v)\<close>. The trace grows by that call alone, so the
  pipeline neither assigns to the slot nor notifies; the heap is the one the setter leaves;
  and the result is \<open>v\<close> whenever the setter returns (what the setter throws is passed on).
\<close>

theorem set_registered_descriptor:
  assumes "is_object obj" and "key_ok keyName"
    and "\<not> isDestroyed E (heap s) obj" and "\<not> isPath keyName"
    and "descriptorFor (heap s) obj keyName = d" and "d \<noteq> Undefined"
    and "typeof (Get E (heap s) d ''set'') = TFunction"
    and "call_impl E (Get E (heap s) d ''set'') d [obj, keyName, v] (heap s) = (r, h')"
  shows "set_prop E [obj, keyName, v] s =
           ((case r of Inl x \<Rightarrow> Inl (Thrown x) | Inr _ \<Rightarrow> Inr v),
            \<lparr>heap = h', trace = trace s @ [Call (Get E (heap s) d ''set'') d [obj, keyName, v]]\<rparr>)"
  using assms by (simp add: set_prop_guards set_key_descriptor)

theorem set_registered_descriptor_witness:
  "descriptorFor heap_computed (Obj 1) (Str ''foo'') = Obj 2
   \<and> set_prop env0 [Obj 1, Str ''foo'', Str ''bar''] \<lparr>heap = heap_computed, trace = []\<rparr> =
       (Inr (Str ''bar''),
        \<lparr>heap = heap_computed, trace = [Call (Func 3) (Obj 2) [Obj 1, Str ''foo'', Str ''bar'']]\<rparr>)"
  using set_registered_descriptor [of "Obj 1" "Str ''foo''" env0
      "\<lparr>heap = heap_computed, trace = []\<rparr>" "Obj 2" "Str ''bar''" "Inr Undefined" heap_computed]
  by (simp add: model_defs heap_computed_def)

subsection \<open>A destroyed object\<close>

text \<open>
  Claim C4. Let \<open>obj\<close> be an object whose \<open>isDestroyed\<close> is true, and the key one that
  \<open>set\<close> accepts. Without the tolerant argument \<open>set(obj, keyName, v)\<close> fails with
  \<open>DestroyedObjectError\<close>; with it, it fails so when \<open>tolerant\<close> is false and returns
  \<open>undefined\<close> when it is true. In all three cases the state is the one before the call:
  the heap is not changed and the trace is not extended.
\<close>

theorem set_destroyed_object:
  assumes "is_object obj" and "key_ok keyName" and "isDestroyed E (heap s) obj"
  shows "set_prop E [obj, keyName, v] s = (Inl DestroyedObjectError, s)
       \<and> set_prop E [obj, keyName, v, tolerant] s =
           (if truthy tolerant then (Inr Undefined, s) else (Inl DestroyedObjectError, s))"
  using assms by (simp add: set_prop_guards)

theorem set_destroyed_object_witness:
  "isDestroyed env0 heap_destroyed (Obj 2)
   \<and> set_prop env0 [Obj 2, Str ''x'', Num (Number ''1'')] \<lparr>heap = heap_destroyed, trace = []\<rparr> =
       (Inl DestroyedObjectError, \<lparr>heap = heap_destroyed, trace = []\<rparr>)
   \<and> set_prop env0 [Obj 2, Str ''x'', Num (Number ''1''), Bool True] \<lparr>heap = heap_destroyed, trace = []\<rparr> =
       (Inr Undefined, \<lparr>heap = heap_destroyed, trace = []\<rparr>)"
  using set_destroyed_object [of "Obj 2" "Str ''x''" env0
      "\<lparr>heap = heap_destroyed, trace = []\<rparr>" "Num (Number ''1'')" "Bool True"]
  by (simp add: model_defs heap_destroyed_def)

subsection \<open>When the change is notified\<close>




text \<open>
  Why (2) asks for a plain property and for observers that leave the object as it is:
  with an accessor whose setter drops the value, and with an observer that assigns
  another value to the key, the second of two equal calls notifies again.
\<close>

lemma dropping_setter_notifies_twice:
  "notified env0 [Obj 1, Str ''x'', Num (Number ''1'')] \<lparr>heap = heap_accessor, trace = []\<rparr>
   \<and> notified env0 [Obj 1, Str ''x'', Num (Number ''1'')]
        (snd (set_prop env0 [Obj 1, Str ''x'', Num (Number ''1'')]
                \<lparr>heap = heap_accessor, trace = []\<rparr>))"
  by (simp add: run_defs model_defs heap_accessor_def notified_def)

lemma assigning_observer_notifies_twice:
  "notified env_observer [Obj 1, Str ''x'', Num (Number ''1'')] \<lparr>heap = heap_plain, trace = []\<rparr>
   \<and> notified env_observer [Obj 1, Str ''x'', Num (Number ''1'')]
        (snd (set_prop env_observer [Obj 1, Str ''x'', Num (Number ''1'')]
                \<lparr>heap = heap_plain, trace = []\<rparr>))"
  by (simp add: run_defs model_defs env_observer_def notified_def)

subsection \<open>The hook for unknown properties\<close>

text \<open>
  Claim C6, amended. Let \<open>obj\<close> be an object of type \<open>'object'\<close> (not a function) that
  is not destroyed, and \<open>keyName\<close> a simple key without a registered descriptor. If the
  current value is \<open>undefined\<close>, the key is neither an own nor an inherited property of
  \<open>obj\<close>, and \<open>obj.setUnknownProperty\<close> is a function, then \<open>set(obj, keyName, v)\<close>
  calls \<open>obj.setUnknownProperty(keyName, v)\<close> and does nothing else (the trace grows by
  that call alone, so there is no assignment to the slot), and it returns \<open>v\<close> whenever
  the hook returns.
\<close>

theorem set_unknown_property:
  assumes "is_object obj" and "typeof obj = TObject" and "key_ok keyName"
    and "\<not> isDestroyed E (heap s) obj" and "\<not> isPath keyName"
    and "descriptorFor (heap s) obj keyName = Undefined"
    and "currentValue E (heap s) obj keyName = Undefined"
    and "\<not> has_property (heap s) obj (to_key keyName)"
    and "typeof (Get E (heap s) obj ''setUnknownProperty'') = TFunction"
    and "call_impl E (Get E (heap s) obj ''setUnknownProperty'') obj [keyName, v] (heap s) = (r, h')"
  shows "set_prop E [obj, keyName, v] s =
           ((case r of Inl x \<Rightarrow> Inl (Thrown x) | Inr _ \<Rightarrow> Inr v),
            \<lparr>heap = h',
             trace = trace s @ [Call (Get E (heap s) obj ''setUnknownProperty'') obj [keyName, v]]\<rparr>)"
proof -
  have "routes_unknown E (heap s) obj keyName"
    using assms by (simp add: routes_unknown_def)
  then show ?thesis
    using assms by (simp add: set_prop_guards set_key_unknown)
qed

theorem set_unknown_property_witness:
  "set_prop env0 [Obj 1, Str ''x'', Num (Number ''1'')] \<lparr>heap = heap_hook, trace = []\<rparr> =
     (Inr (Num (Number ''1'')),
      \<lparr>heap = heap_hook, trace = [Call (Func 2) (Obj 1) [Str ''x'', Num (Number ''1'')]]\<rparr>)"
  using set_unknown_property [of "Obj 1" "Str ''x''" env0 "\<lparr>heap = heap_hook, trace = []\<rparr>"
      "Num (Number ''1'')" "Inr Undefined" heap_hook]
  by (simp add: model_defs heap_hook_def)

text \<open>
  The claim as it was stated fails for a function object: line 131 asks for
  \<open>'object' === typeof obj\<close>, so a function with a \<open>setUnknownProperty\<close> method and
  no property \<open>x\<close> has the slot assigned and the change notified, and the hook is not
  called.
\<close>

theorem set_unknown_property_function_object:
  "currentValue env0 heap_hook (Func 1) (Str ''x'') = Undefined
   \<and> \<not> has_property heap_hook (Func 1) ''x''
   \<and> Get env0 heap_hook (Func 1) ''setUnknownProperty'' = Func 2
   \<and> trace (snd (set_prop env0 [Func 1, Str ''x'', Num (Number ''1'')] \<lparr>heap = heap_hook, trace = []\<rparr>)) =
       [Assign (Func 1) ''x'' (Num (Number ''1'')), Notify (Func 1) (Str ''x'')]"
  by (simp add: run_defs model_defs heap_hook_def)

text \<open>
  Claim C10. Whenever \<open>set(obj, keyName, v)\<close> on a simple key hands the key to
  \<open>setUnknownProperty\<close>, it triggers no change notification, whatever \<open>v\<close> is: also
  when \<open>v\<close> differs from the current value, which is \<open>undefined\<close> there.
\<close>

theorem unknown_property_not_notified:
  assumes "is_object obj" and "key_ok keyName"
    and "\<not> isDestroyed E (heap s) obj" and "\<not> isPath keyName"
    and "descriptorFor (heap s) obj keyName = Undefined"
    and "routes_unknown E (heap s) obj keyName"
  shows "\<not> notified E [obj, keyName, v] s"
proof -
  have "set_prop E [obj, keyName, v] s = set_key E obj keyName v s"
    using assms by (simp add: set_prop_guards)
  moreover have "quiet s (snd (set_key E obj keyName v s))"
    using assms(5,6) by (simp add: set_key_routed invoke_quiet_snd)
  ultimately show ?thesis by (simp add: notified_def quiet_not_notified)
qed

theorem unknown_property_not_notified_witness:
  "routes_unknown env0 heap_hook (Obj 1) (Str ''x'')
   \<and> strict_neq (currentValue env0 heap_hook (Obj 1) (Str ''x'')) (Num (Number ''1''))
   \<and> \<not> notified env0 [Obj 1, Str ''x'', Num (Number ''1'')] \<lparr>heap = heap_hook, trace = []\<rparr>"
  using unknown_property_not_notified [of "Obj 1" "Str ''x''" env0
      "\<lparr>heap = heap_hook, trace = []\<rparr>" "Num (Number ''1'')"]
  by (simp add: model_defs heap_hook_def strict_neq_def)

subsection \<open>The upgrade of a legacy descriptor\<close>

text \<open>
  Claim C9. On the deprecated upgrade path, that is when the raw value \<open>cv\<close> of the key
  is a descriptor that is not registered, \<open>set\<close> defines exactly one property: the getter
  shim on \<open>obj\<close> under the key, without a setter, and with the enumerable flag equal to
  \<open>cv.enumerable === false\<close>. The shim is enumerable exactly when the descriptor's
  \<open>enumerable\<close> is the value \<open>false\<close>, and not enumerable in every other case. The
  object carries that shim as its own property when the descriptor has been registered
  and \<open>setup\<close> and \<open>cv.set\<close> are about to be called, and it still carries it when
  \<open>set\<close> ends if the functions called leave the object as it is.
\<close>

theorem legacy_shim_enumerable:
  assumes "is_object obj" and "key_ok keyName"
    and "\<not> isDestroyed E (heap s) obj" and "\<not> isPath keyName"
    and "descriptorFor (heap s) obj keyName = Undefined"
    and "PROPERTY_BASED_DESCRIPTORS E"
    and "currentValue E (heap s) obj keyName = cv"
    and "isDescriptor E (heap s) cv"
  shows "filter is_DefineProperty (new_events s (snd (set_prop E [obj, keyName, v] s))) =
           [DefineProperty obj (to_key keyName)
              (Accessor (DescriptorShim cv keyName) Undefined
                 (Get E (heap s) cv ''enumerable'' = Bool False))]
       \<and> getOwnPropertyDescriptor
           (heap (writeDescriptors obj keyName cv
                    (defineProperty obj (to_key keyName)
                       (Accessor (DescriptorShim cv keyName) Undefined
                          (Get E (heap s) cv ''enumerable'' = Bool False))
                       (deprecate ''ember-meta.descriptor-on-object'' s))))
           obj (to_key keyName) =
           Some (Accessor (DescriptorShim cv keyName) Undefined
                   (Get E (heap s) cv ''enumerable'' = Bool False))
       \<and> (functions_leave E obj \<longrightarrow>
            getOwnPropertyDescriptor (heap (snd (set_prop E [obj, keyName, v] s)))
              obj (to_key keyName) =
              Some (Accessor (DescriptorShim cv keyName) Undefined
                      (Get E (heap s) cv ''enumerable'' = Bool False)))"
proof -
  let ?shim = "Accessor (DescriptorShim cv keyName) Undefined
                 (Get E (heap s) cv ''enumerable'' = Bool False)"
  define s3 where "s3 = writeDescriptors obj keyName cv
            (defineProperty obj (to_key keyName) ?shim
               (deprecate ''ember-meta.descriptor-on-object'' s))"
  obtain r where r: "ref_of obj = Some r"
    using is_object_ref [OF assms(1)] by blast
  have eq: "set_prop E [obj, keyName, v] s = set_key E obj keyName v s"
    using assms by (simp add: set_prop_guards)
  obtain evs where
    "trace (snd (set_key E obj keyName v s)) =
       trace s @ [Deprecate ''ember-meta.descriptor-on-object'',
                  DefineProperty obj (to_key keyName) ?shim,
                  WriteDescriptors obj keyName cv] @ evs"
    "list_all is_Call evs"
    using set_key_legacy_trace [OF assms(5,6,8) assms(7) [symmetric], of v] by blast
  then have events: "filter is_DefineProperty
      (new_events s (snd (set_prop E [obj, keyName, v] s))) =
      [DefineProperty obj (to_key keyName) ?shim]"
    by (simp add: eq new_events_def calls_define)
  have own3: "getOwnPropertyDescriptor (heap s3) obj (to_key keyName) = Some ?shim"
    using r
    by (simp add: s3_def writeDescriptors_def defineProperty_def deprecate_def put_own_def
        getOwnPropertyDescriptor_def Let_def)
  have final: "getOwnPropertyDescriptor (heap (snd (set_prop E [obj, keyName, v] s)))
                 obj (to_key keyName) = Some ?shim"
    if leave: "functions_leave E obj"
  proof -
    define step where "step = (if typeof (Get E (heap s3) cv ''setup'') = TFunction
            then invoke E (Get E (heap s3) cv ''setup'') cv [obj, keyName] s3
            else (Inr Undefined, s3))"
    have k: "set_key E obj keyName v s =
       (case step of
          (Inl e, s4) \<Rightarrow> (Inl e, s4)
        | (Inr _, s4) \<Rightarrow>
            (case invoke E (Get E (heap s4) cv ''set'') cv [obj, keyName, v] s4 of
               (Inl e, s5) \<Rightarrow> (Inl e, s5)
             | (Inr _, s5) \<Rightarrow> (Inr v, s5)))"
      unfolding step_def
      using assms(5,6) assms(8) [unfolded assms(7) [symmetric]] assms(7) [symmetric] s3_def
      by (rule set_key_legacy)
    obtain r4 s4 where st: "step = (r4, s4)" by (cases step)
    have h4: "heap s4 r = heap s3 r"
    proof (cases "typeof (Get E (heap s3) cv ''setup'') = TFunction")
      case True
      then have "s4 = snd (invoke E (Get E (heap s3) cv ''setup'') cv [obj, keyName] s3)"
        using st by (simp add: step_def)
      then show ?thesis using invoke_heap [OF leave r] by simp
    next
      case False
      then show ?thesis using st by (simp add: step_def)
    qed
    have "heap (snd (set_key E obj keyName v s)) r = heap s3 r"
    proof (cases r4)
      case (Inl e)
      then show ?thesis using k st h4 by simp
    next
      case (Inr u)
      then have "snd (set_key E obj keyName v s) =
                 snd (invoke E (Get E (heap s4) cv ''set'') cv [obj, keyName, v] s4)"
        using k st by simp
      then show ?thesis
        using invoke_heap [OF leave r, of _ cv "[obj, keyName, v]" s4] h4 by simp
    qed
    then show ?thesis
      using own3 r by (simp add: eq getOwnPropertyDescriptor_def)
  qed
  show ?thesis
    using events own3 final unfolding s3_def by blast
qed

theorem legacy_shim_enumerable_witness:
  "filter is_DefineProperty
     (new_events \<lparr>heap = heap_legacy, trace = []\<rparr>
        (snd (set_prop env0 [Obj 1, Str ''foo'', Num (Number ''1'')] \<lparr>heap = heap_legacy, trace = []\<rparr>))) =
     [DefineProperty (Obj 1) ''foo'' (Accessor (DescriptorShim (Obj 2) (Str ''foo'')) Undefined False)]
   \<and> getOwnPropertyDescriptor
       (heap (snd (set_prop env0 [Obj 1, Str ''foo'', Num (Number ''1'')]
                     \<lparr>heap = heap_legacy, trace = []\<rparr>)))
       (Obj 1) ''foo'' =
     Some (Accessor (DescriptorShim (Obj 2) (Str ''foo'')) Undefined False)
   \<and> filter is_DefineProperty
     (new_events \<lparr>heap = heap_legacy, trace = []\<rparr>
        (snd (set_prop env0 [Obj 7, Str ''foo'', Num (Number ''1'')] \<lparr>heap = heap_legacy, trace = []\<rparr>))) =
     [DefineProperty (Obj 7) ''foo'' (Accessor (DescriptorShim (Obj 8) (Str ''foo'')) Undefined True)]
   \<and> getOwnPropertyDescriptor
       (heap (snd (set_prop env0 [Obj 7, Str ''foo'', Num (Number ''1'')]
                     \<lparr>heap = heap_legacy, trace = []\<rparr>)))
       (Obj 7) ''foo'' =
     Some (Accessor (DescriptorShim (Obj 8) (Str ''foo'')) Undefined True)"
proof -
  have leave: "functions_leave env0 (Obj 1)" "functions_leave env0 (Obj 7)"
    by (simp_all add: functions_leave_def env0_def)
  show ?thesis
    using leave
      legacy_shim_enumerable [of "Obj 1" "Str ''foo''" env0
        "\<lparr>heap = heap_legacy, trace = []\<rparr>" "Obj 2" "Num (Number ''1'')"]
      legacy_shim_enumerable [of "Obj 7" "Str ''foo''" env0
        "\<lparr>heap = heap_legacy, trace = []\<rparr>" "Obj 8" "Num (Number ''1'')"]
    by (simp add: model_defs heap_legacy_def)
qed

subsection \<open>The argument assertions\<close>




subsection \<open>A dotted path\<close>

text \<open>
  Claim C5, amended. Let \<open>obj\<close> be an object that is not destroyed and the key a dotted
  path that \<open>set\<close> accepts and whose last segment is not blank. Then
  \<open>set(obj, path, v, tolerant)\<close> resolves all segments but the last, as one path, through
  \<open>getPath\<close>. If the resolution throws, so does \<open>set\<close>. If the parent it yields is
  nullish, \<open>set\<close> returns \<open>undefined\<close> when \<open>tolerant\<close> is truthy and fails with
  \<open>PathResolutionError\<close> otherwise. With any other parent it is the call
  \<open>set(parent, lastSegment, v)\<close> with three arguments: the last segment is a simple
  key, and \<open>tolerant\<close> is not passed on, so that a destroyed parent makes \<open>set\<close> fail
  with \<open>DestroyedObjectError\<close> whatever \<open>tolerant\<close> is.
\<close>

theorem set_dotted_path:
  assumes "is_object obj" and "key_ok (Str path)"
    and "\<not> isDestroyed E (heap s) obj" and "isPath (Str path)"
    and "trim (last (split_dot path)) \<noteq> []"
  shows "set_prop E [obj, Str path, v, tolerant] s =
           (case getPath E obj (join_dot (butlast (split_dot path))) s of
              (Inl e, s1) \<Rightarrow> (Inl e, s1)
            | (Inr root, s1) \<Rightarrow>
                if root = Null \<or> root = Undefined
                then (if truthy tolerant then (Inr Undefined, s1)
                      else (Inl PathResolutionError, s1))
                else set_prop E [root, Str (last (split_dot path)), v] s1)
       \<and> \<not> isPath (Str (last (split_dot path)))
       \<and> (case getPath E obj (join_dot (butlast (split_dot path))) s of
             (Inr root, s1) \<Rightarrow>
               is_object root \<and> isDestroyed E (heap s1) root \<longrightarrow>
               set_prop E [obj, Str path, v, tolerant] s = (Inl DestroyedObjectError, s1)
           | _ \<Rightarrow> True)"
proof -
  have eq: "set_prop E [obj, Str path, v, tolerant] s = setPath E obj path v tolerant s"
    using assms by (simp add: set_prop_guards)
  have nn: "is_object root \<Longrightarrow> root \<noteq> Null \<and> root \<noteq> Undefined" for root
    by (auto simp: is_object_def)
  show ?thesis
    unfolding eq setPath_unfold using assms(5) nn
    by (auto simp: last_segment_no_dot set_prop_last_segment split: prod.splits sum.splits)
qed


theorem set_dotted_path_witness:
  "set_prop env0 [Obj 1, Str ''a.b'', Num (Number ''1''), Bool False] \<lparr>heap = heap_nested, trace = []\<rparr> =
     (Inr (Num (Number ''1'')),
      \<lparr>heap = heap_nested(2 := empty_obj\<lparr>own := [''b'' \<mapsto> Data (Num (Number ''1'')) True]\<rparr>),
       trace = [GetPath (Obj 1) ''a'', Assign (Obj 2) ''b'' (Num (Number ''1'')), Notify (Obj 2) (Str ''b'')]\<rparr>)
   \<and> set_prop env0 [Obj 1, Str ''c.b'', Num (Number ''1''), Bool False] \<lparr>heap = heap_nested, trace = []\<rparr> =
     (Inl PathResolutionError, \<lparr>heap = heap_nested, trace = [GetPath (Obj 1) ''c'']\<rparr>)
   \<and> set_prop env0 [Obj 1, Str ''c.b'', Num (Number ''1''), Bool True] \<lparr>heap = heap_nested, trace = []\<rparr> =
     (Inr Undefined, \<lparr>heap = heap_nested, trace = [GetPath (Obj 1) ''c'']\<rparr>)"
  using set_dotted_path [of "Obj 1" "''a.b''" env0 "\<lparr>heap = heap_nested, trace = []\<rparr>"
      "Num (Number ''1'')" "Bool False"]
    set_dotted_path [of "Obj 1" "''c.b''" env0 "\<lparr>heap = heap_nested, trace = []\<rparr>"
      "Num (Number ''1'')" "Bool False"]
    set_dotted_path [of "Obj 1" "''c.b''" env0 "\<lparr>heap = heap_nested, trace = []\<rparr>"
      "Num (Number ''1'')" "Bool True"]
  by (simp add: run_defs model_defs heap_nested_def)

text \<open>
  The claim as it was stated fails for a path whose last segment is blank, such as
  \<open>a.\<close>, or \<open>a.\<close> followed by a no-break space: line 178 asserts that the trimmed
  last segment is not empty before anything is resolved, so nothing is resolved and the
  failure is that assertion, with or without \<open>tolerant\<close>.
\<close>

theorem set_dotted_path_blank_segment:
  "isPath (Str ''a.'')
   \<and> set_prop env0 [Obj 1, Str ''a.'', Num (Number ''1'')] \<lparr>heap = heap_nested, trace = []\<rparr> =
       (Inl InvalidArgument, \<lparr>heap = heap_nested, trace = []\<rparr>)
   \<and> set_prop env0 [Obj 1, Str ''a.'', Num (Number ''1''), Bool True] \<lparr>heap = heap_nested, trace = []\<rparr> =
       (Inl InvalidArgument, \<lparr>heap = heap_nested, trace = []\<rparr>)
   \<and> set_prop env0 [Obj 1, Str [CHR ''a'', CHR ''.'', CHR 0xA0], Num (Number ''1''), Bool True]
         \<lparr>heap = heap_nested, trace = []\<rparr> =
       (Inl InvalidArgument, \<lparr>heap = heap_nested, trace = []\<rparr>)"
  by (simp add: run_defs model_defs heap_nested_def)

subsection \<open>The tolerant write\<close>

text \<open>
  Claim C3, amended. Let \<open>root\<close> be an object and the key a dotted path that \<open>set\<close>
  accepts. Then \<open>trySet(root, path, v)\<close> is \<open>set(root, path, v, true)\<close>. It never
  fails with \<open>PathResolutionError\<close>, and it never fails with \<open>DestroyedObjectError\<close>
  as long as the path resolution does not yield a destroyed object. It returns
  \<open>undefined\<close> and leaves the state alone when \<open>root\<close> is destroyed; and when the last
  segment of the path is not blank, it returns \<open>undefined\<close> when a link is missing, that
  is when the parent that the path resolves to is nullish.
\<close>

theorem trySet_tolerant:
  assumes "is_object root" and "key_ok (Str path)" and "isPath (Str path)"
  shows "trySet E root (Str path) v s = set_prop E [root, Str path, v, Bool True] s
       \<and> fst (trySet E root (Str path) v s) \<noteq> Inl PathResolutionError
       \<and> (yields_no_destroyed E \<longrightarrow>
            fst (trySet E root (Str path) v s) \<noteq> Inl DestroyedObjectError)
       \<and> (isDestroyed E (heap s) root \<longrightarrow> trySet E root (Str path) v s = (Inr Undefined, s))
       \<and> (\<not> isDestroyed E (heap s) root \<and> trim (last (split_dot path)) \<noteq> [] \<longrightarrow>
            (case getPath E root (join_dot (butlast (split_dot path))) s of
               (Inr newRoot, s1) \<Rightarrow>
                 newRoot = Null \<or> newRoot = Undefined \<longrightarrow>
                 trySet E root (Str path) v s = (Inr Undefined, s1)
             | (Inl e, s1) \<Rightarrow> True))"
proof -
  have eq2: "set_prop E [root, Str path, v, Bool True] s =
      (if isDestroyed E (heap s) root then (Inr Undefined, s)
       else setPath E root path v (Bool True) s)"
    using assms by (simp add: set_prop_guards)
  have eq: "trySet E root (Str path) v s =
      (if isDestroyed E (heap s) root then (Inr Undefined, s)
       else setPath E root path v (Bool True) s)"
    using eq2 by (simp add: trySet_def)
  have nn: "is_object r \<Longrightarrow> r \<noteq> Null \<and> r \<noteq> Undefined" for r
    by (auto simp: is_object_def)
  show ?thesis
  proof (cases "isDestroyed E (heap s) root")
    case True
    then show ?thesis by (simp add: eq eq2)
  next
    case alive: False
    show ?thesis
    proof (cases "trim (last (split_dot path)) = []")
      case True
      then show ?thesis using alive by (simp add: eq eq2 setPath_unfold)
    next
      case False
      obtain r1 s1 where g: "getPath E root (join_dot (butlast (split_dot path))) s = (r1, s1)"
        by (cases "getPath E root (join_dot (butlast (split_dot path))) s")
      show ?thesis
      proof (cases r1)
        case (Inl e)
        then obtain x where "e = Thrown x" using g getPath_error by blast
        then show ?thesis using alive False g Inl
          by (simp add: eq eq2 setPath_unfold)
      next
        case (Inr newRoot)
        have nd: "yields_no_destroyed E \<Longrightarrow> \<not> isDestroyed E (heap s1) newRoot"
          using getPath_not_destroyed [of E root _ s newRoot s1] g Inr by simp
        show ?thesis using alive False g Inr nn [of newRoot] nd
          by (auto simp: eq eq2 setPath_unfold set_prop_last_segment set_key_error_fst)
      qed
    qed
  qed
qed

theorem trySet_tolerant_witness:
  "yields_no_destroyed env0
   \<and> trySet env0 (Obj 1) (Str ''c.b'') (Num (Number ''1'')) \<lparr>heap = heap_nested, trace = []\<rparr> =
     (Inr Undefined, \<lparr>heap = heap_nested, trace = [GetPath (Obj 1) ''c'']\<rparr>)
   \<and> trySet env0 (Obj 1) (Str ''a.b'') (Num (Number ''1'')) \<lparr>heap = heap_destroyed, trace = []\<rparr> =
     (Inr Undefined, \<lparr>heap = heap_destroyed, trace = [GetPath (Obj 1) ''a'']\<rparr>)
   \<and> trySet env0 (Obj 2) (Str ''a.b'') (Num (Number ''1'')) \<lparr>heap = heap_destroyed, trace = []\<rparr> =
     (Inr Undefined, \<lparr>heap = heap_destroyed, trace = []\<rparr>)"
  using env0_yields_no_destroyed
    trySet_tolerant [of "Obj 1" "''c.b''" env0 "Num (Number ''1'')"
      "\<lparr>heap = heap_nested, trace = []\<rparr>"]
    trySet_tolerant [of "Obj 1" "''a.b''" env0 "Num (Number ''1'')"
      "\<lparr>heap = heap_destroyed, trace = []\<rparr>"]
    trySet_tolerant [of "Obj 2" "''a.b''" env0 "Num (Number ''1'')"
      "\<lparr>heap = heap_destroyed, trace = []\<rparr>"]
  by (simp add: run_defs model_defs trySet_def heap_nested_def heap_destroyed_def)

text \<open>
  The claim as it was stated fails for a path whose last segment is blank: object 1 has
  no property \<open>c\<close>, so a link of the path \<open>c.\<close> is missing, and \<open>trySet\<close> does not
  return \<open>undefined\<close> but fails the assertion of line 178, before anything is resolved.
\<close>

theorem trySet_blank_segment:
  "isPath (Str ''c.'')
   \<and> \<not> has_property heap_nested (Obj 1) ''c''
   \<and> trySet env0 (Obj 1) (Str ''c.'') (Num (Number ''1'')) \<lparr>heap = heap_nested, trace = []\<rparr> =
       (Inl InvalidArgument, \<lparr>heap = heap_nested, trace = []\<rparr>)"
  by (simp add: run_defs model_defs trySet_def heap_nested_def)

subsection \<open>The write that knows of mandatory setters\<close>

text \<open>
  Claim C8. If the meta exists and the watch count of the key is greater than 0,
  \<open>setWithMandatorySetter\<close> first makes the key's own property enumerable when the
  mandatory-setter trap is installed there (the descriptor is defined again with
  \<open>enumerable\<close> true; without the trap nothing is defined), and then writes the value
  through \<open>meta.writeValue\<close>. If the meta is absent or the watch count is 0, it is the
  ordinary assignment \<open>obj[keyName] = value\<close>.
\<close>

theorem mandatory_setter_write:
  "(m \<noteq> None \<and> 0 < peekWatching (the m) keyName \<longrightarrow>
      setWithMandatorySetter E m obj keyName v s =
        writeValue E (the m) obj keyName v (makeEnumerable E obj keyName s)
      \<and> (mandatory_setter_installed E (heap s) obj keyName \<longrightarrow>
           getOwnPropertyDescriptor (heap (makeEnumerable E obj keyName s)) obj (to_key keyName) =
             Some (with_enumerable (the (getOwnPropertyDescriptor (heap s) obj (to_key keyName))))
           \<and> new_events s (snd (setWithMandatorySetter E m obj keyName v s)) =
               [DefineProperty obj (to_key keyName)
                  (with_enumerable (the (getOwnPropertyDescriptor (heap s) obj (to_key keyName)))),
                WriteValue obj keyName v])
      \<and> (\<not> mandatory_setter_installed E (heap s) obj keyName \<longrightarrow>
           makeEnumerable E obj keyName s = s
           \<and> new_events s (snd (setWithMandatorySetter E m obj keyName v s)) =
               [WriteValue obj keyName v]))
   \<and> (\<not> (m \<noteq> None \<and> 0 < peekWatching (the m) keyName) \<longrightarrow>
        setWithMandatorySetter E m obj keyName v s = assign E obj (to_key keyName) v s)"
proof (intro conjI impI)
  assume w: "m \<noteq> None \<and> 0 < peekWatching (the m) keyName"
  then show eq: "setWithMandatorySetter E m obj keyName v s =
        writeValue E (the m) obj keyName v (makeEnumerable E obj keyName s)"
    by (simp add: setWithMandatorySetter_def)
  {
    assume i: "mandatory_setter_installed E (heap s) obj keyName"
    then have own: "getOwnPropertyDescriptor (heap s) obj (to_key keyName) \<noteq> None"
      by (auto simp: mandatory_setter_installed_def split: option.splits)
    show "getOwnPropertyDescriptor (heap (makeEnumerable E obj keyName s)) obj (to_key keyName) =
             Some (with_enumerable (the (getOwnPropertyDescriptor (heap s) obj (to_key keyName))))"
      using own by (simp add: makeEnumerable_installed [OF i] own_after_defineProperty)
    show "new_events s (snd (setWithMandatorySetter E m obj keyName v s)) =
               [DefineProperty obj (to_key keyName)
                  (with_enumerable (the (getOwnPropertyDescriptor (heap s) obj (to_key keyName)))),
                WriteValue obj keyName v]"
      by (simp add: eq writeValue_events makeEnumerable_installed [OF i] defineProperty_def)
  }
  {
    assume n: "\<not> mandatory_setter_installed E (heap s) obj keyName"
    then show "makeEnumerable E obj keyName s = s"
      by (rule makeEnumerable_not_installed)
    then show "new_events s (snd (setWithMandatorySetter E m obj keyName v s)) =
               [WriteValue obj keyName v]"
      by (simp add: eq writeValue_events)
  }
next
  assume "\<not> (m \<noteq> None \<and> 0 < peekWatching (the m) keyName)"
  then show "setWithMandatorySetter E m obj keyName v s = assign E obj (to_key keyName) v s"
    by (auto simp: setWithMandatorySetter_def)
qed

theorem mandatory_setter_write_witness:
  "mandatory_setter_installed env0 heap_watched (Obj 1) (Str ''foo'')
   \<and> setWithMandatorySetter env0 (peekMeta heap_watched (Obj 1)) (Obj 1) (Str ''foo'') (Num (Number ''1''))
       \<lparr>heap = heap_watched, trace = []\<rparr> =
     (Inr (),
      \<lparr>heap = heap_watched(1 := (heap_watched 1)
                 \<lparr>own := [''foo'' \<mapsto> Accessor (GetterFn (Func 4)) (Func 5) True]\<rparr>),
       trace = [DefineProperty (Obj 1) ''foo'' (Accessor (GetterFn (Func 4)) (Func 5) True),
                WriteValue (Obj 1) (Str ''foo'') (Num (Number ''1''))]\<rparr>)
   \<and> setWithMandatorySetter env0 (peekMeta heap_watched (Obj 1)) (Obj 1) (Str ''bar'') (Num (Number ''1''))
       \<lparr>heap = heap_watched, trace = []\<rparr> =
     (Inr (),
      \<lparr>heap = heap_watched(1 := (heap_watched 1)
                 \<lparr>own := [''foo'' \<mapsto> Accessor (GetterFn (Func 4)) (Func 5) False,
                          ''bar'' \<mapsto> Data (Num (Number ''1'')) True]\<rparr>),
       trace = [Assign (Obj 1) ''bar'' (Num (Number ''1''))]\<rparr>)"
  using mandatory_setter_write [of "peekMeta heap_watched (Obj 1)" "Str ''foo''" env0 "Obj 1"
      "Num (Number ''1'')" "\<lparr>heap = heap_watched, trace = []\<rparr>"]
    mandatory_setter_write [of "peekMeta heap_watched (Obj 1)" "Str ''bar''" env0 "Obj 1"
      "Num (Number ''1'')" "\<lparr>heap = heap_watched, trace = []\<rparr>"]
  by (simp add: run_defs model_defs heap_watched_def mandatory_setter_installed_def)

end
